theory Spec2Isabelle
  imports Complex_Main "HOL-Library.Word" "HOL-Library.Sublist"
begin

section \<open>Values, steps and the interaction trace\<close>

text \<open>
  A plan step is a dictionary parsed from JSON (\<^verbatim>\<open>{"action": "type_text", "text": "hi"}\<close>).
  It is kept as the list of its key/value pairs; \<^verbatim>\<open>step.get(k)\<close> is a lookup that
  yields \<^verbatim>\<open>None\<close> for a missing key. Numbers in steps are integers (pixel
  coordinates, seconds), as the planner prompt asks for them.
\<close>

datatype pyval = PNone | PInt int | PStr string

type_synonym step = "(string \<times> pyval) list"

definition get :: "step \<Rightarrow> string \<Rightarrow> pyval" where
  \<comment> \<open>\<^verbatim>\<open>d.get(k)\<close>\<close>
  "get d k = (case map_of d k of None \<Rightarrow> PNone | Some v \<Rightarrow> v)"

definition get_default :: "step \<Rightarrow> string \<Rightarrow> pyval \<Rightarrow> pyval" where
  \<comment> \<open>\<^verbatim>\<open>d.get(k, default)\<close>\<close>
  "get_default d k dflt = (case map_of d k of None \<Rightarrow> dflt | Some v \<Rightarrow> v)"

definition has_action :: "step \<Rightarrow> string \<Rightarrow> bool" where
  \<comment> \<open>\<^verbatim>\<open>step.get('action') == a\<close>\<close>
  "has_action d a = (get d ''action'' = PStr a)"

definition action_in :: "step \<Rightarrow> string list \<Rightarrow> bool" where
  \<comment> \<open>\<^verbatim>\<open>step.get('action') in [a1, a2, ...]\<close>\<close>
  "action_in d as = (case get d ''action'' of PStr a \<Rightarrow> a \<in> set as | _ \<Rightarrow> False)"

subsection \<open>Strings\<close>

text \<open>
  \<^verbatim>\<open>str.lower()\<close> on ASCII text: the letters A to Z are moved to a to z, every other
  character is kept.
\<close>

definition lower_char :: "char \<Rightarrow> char" where
  \<comment> \<open>an upper-case letter (code 65 to 90) gets bit 5 set, which adds 32 to its code\<close>
  "lower_char c =
     (if 65 \<le> (of_char c :: nat) \<and> (of_char c :: nat) \<le> 90
      then (case c of Char b0 b1 b2 b3 b4 b5 b6 b7 \<Rightarrow> Char b0 b1 b2 b3 b4 True b6 b7)
      else c)"

definition lower :: "string \<Rightarrow> string" where
  "lower s = map lower_char s"

fun contains :: "string \<Rightarrow> string \<Rightarrow> bool" where
  \<comment> \<open>\<^verbatim>\<open>needle in haystack\<close>: \<open>contains haystack needle\<close>\<close>
  "contains [] needle = (needle = [])"
| "contains (c # cs) needle = (prefix needle (c # cs) \<or> contains cs needle)"

subsection \<open>Recorded input events and persisted workflows\<close>

text \<open>
  A recorded action as the Recorder's callbacks build it: the type tag, the payload and
  the timestamp relative to the start of the recording. \<open>OtherAction\<close> stands for an
  entry of a workflow file whose type is none of the three. Timestamps and durations
  are real numbers.
\<close>

datatype recorded_action =
    MouseClick int int string real
  | MouseScroll int int int int real
  | KeyPress string real
  | OtherAction real

record workflow_data =
  wf_name :: "string option"
  created_at :: string
  duration :: real
  actions_count :: nat
  actions :: "recorded_action list"

datatype listener_kind = Mouse | Keyboard

subsection \<open>The trace of calls and the environment\<close>

text \<open>
  Everything the program does to the outside (input devices, screen, clock, files,
  listeners, the language model) and the calls between its own components are recorded
  as events, in order. A function of the model takes the history \<open>h\<close> of events so far
  and returns its result with the events it emitted itself. The environment answers
  every call as a function of the history, so it is any deterministic environment.
  \<open>ExecuteAction\<close>, \<open>Recover\<close> and \<open>TrySuggestion\<close> mark the calls of
  \<^verbatim>\<open>_execute_action\<close>, of \<^verbatim>\<open>handle_failed_step\<close> (with the step, the error text and
  the attempt number of the context) and of \<^verbatim>\<open>_execute_recovery_action\<close>; \<open>Handler\<close>
  is the handler or collaborator that \<^verbatim>\<open>_execute_action\<close> dispatches to. A listener
  is named by the position of its creation in the trace.
\<close>

type_synonym image = "8 word list"

record suggestion =
  approach :: "string option"
  sug_action :: pyval
  parameters :: step
  confidence :: "real option"

datatype event =
    Sleep real
  | SaveStep step
  | ExecuteAction step
  | Handler step
  | Recover step string nat
  | Screenshot
  | SaveScreenshot
  | AnalyzeScreen
  | Click pyval pyval
  | Typewrite pyval
  | Press pyval
  | KeyDown string
  | KeyUp string
  | AskModel
  | TrySuggestion suggestion
  | ImportPyautogui
  | WriteText string
  | Scroll int int int
  | StopListener nat
  | JoinListener nat
  | NewListener listener_kind
  | StartListener nat
  | MakeDirs
  | WriteFile string workflow_data

type_synonym trace = "event list"

datatype file_content = Unreadable | Workflow workflow_data

record env =
  raises :: "trace \<Rightarrow> event \<Rightarrow> string option"
  handler_result :: "trace \<Rightarrow> step \<Rightarrow> bool"
  screen :: "trace \<Rightarrow> image"
  model_reply :: "trace \<Rightarrow> suggestion list option"
  api_key :: bool
  listener_running :: "trace \<Rightarrow> nat \<Rightarrow> bool"
  clock :: "trace \<Rightarrow> real"
  strftime :: "trace \<Rightarrow> string"
  isoformat :: "trace \<Rightarrow> string"
  files :: "trace \<Rightarrow> string \<Rightarrow> file_content option"

text \<open>
  \<open>raises E h e = Some msg\<close>: after history \<open>h\<close> the call \<open>e\<close> raises an exception
  whose text is \<open>msg\<close>. \<^verbatim>\<open>time.sleep\<close> with a non-negative argument does not raise.
  \<open>handler_result\<close> is the success flag of a handler that returns one; \<open>screen\<close> is
  what \<^verbatim>\<open>pyautogui.screenshot()\<close> shows; \<open>model_reply\<close> is the parsed reply of the
  language model, None when it is no JSON list of suggestions; \<open>api_key\<close> tells whether
  a key is configured; \<open>listener_running\<close> is the \<^verbatim>\<open>running\<close> flag of a listener;
  \<open>clock\<close>, \<open>strftime\<close> and \<open>isoformat\<close> are \<^verbatim>\<open>time.time()\<close> and the two
  renderings of \<^verbatim>\<open>datetime.now()\<close>; \<open>files\<close> is the content of the workflow
  directory, None for a path that does not exist.
\<close>

definition fails :: "env \<Rightarrow> trace \<Rightarrow> event \<Rightarrow> string option" where
  "fails E h e = (case e of Sleep d \<Rightarrow> None | _ \<Rightarrow> raises E h e)"

text \<open>A straight-line block of calls inside one \<^verbatim>\<open>try\<close>: it stops at the first that raises.\<close>

fun run_calls :: "env \<Rightarrow> event list \<Rightarrow> trace \<Rightarrow> string option \<times> trace" where
  "run_calls E [] h = (None, [])"
| "run_calls E (e # es) h =
     (case fails E h e of
        Some msg \<Rightarrow> (Some msg, [e])
      | None \<Rightarrow> (case run_calls E es (h @ [e]) of (r, out) \<Rightarrow> (r, e # out)))"

section \<open>Recovery strategies (error\_recovery.py)\<close>

subsection \<open>Screen change detection\<close>

text \<open>
  \<^verbatim>\<open>_detect_screen_change\<close>. A screenshot converted by \<^verbatim>\<open>np.array\<close> is an array of
  unsigned bytes, here the flat list of its entries. The subtraction of two such arrays
  wraps around modulo 256 and \<^verbatim>\<open>np.abs\<close> keeps an unsigned value; the sum is taken in a
  wide integer. The quotient is computed over the reals. Arrays of different sizes
  raise inside the \<^verbatim>\<open>try\<close> and an empty array gives \<^verbatim>\<open>nan\<close>: both answer False.
\<close>

definition pixel_diff :: "image \<Rightarrow> image \<Rightarrow> nat" where
  "pixel_diff before after = sum_list (map (\<lambda>(b, a). unat (b - a)) (zip before after))"

definition change_percentage :: "image \<Rightarrow> image \<Rightarrow> real" where
  "change_percentage before after =
     real (pixel_diff before after) / (real (length before) * 255) * 100"

definition detect_screen_change :: "image \<Rightarrow> image \<Rightarrow> bool" where
  "detect_screen_change before after =
     (if length before \<noteq> length after \<or> before = [] then False
      else change_percentage before after > 0.1)"

subsection \<open>Strategy 1: coordinate perturbation\<close>

definition offsets :: "(int \<times> int) list" where
  "offsets = [(0, 0), (10, 0), (-10, 0), (0, 10), (0, -10), (20, 20), (-20, -20)]"

text \<open>
  The body of the loop for one offset, once \<open>new_x\<close> and \<open>new_y\<close> are computed:
  screenshot, click, half a second of sleep, screenshot, comparison. An exception in any
  of the calls ends this offset without success.
\<close>

definition click_and_check :: "env \<Rightarrow> int \<Rightarrow> int \<Rightarrow> trace \<Rightarrow> bool \<times> trace" where
  "click_and_check E nx ny h =
     (case run_calls E [Screenshot, Click (PInt nx) (PInt ny), Sleep 0.5, Screenshot] h of
        (Some msg, out) \<Rightarrow> (False, out)
      | (None, out) \<Rightarrow>
          (detect_screen_change (screen E h)
             (screen E (h @ [Screenshot, Click (PInt nx) (PInt ny), Sleep 0.5])), out))"

text \<open>
  The loop over the offsets. \<open>original_x + dx\<close> raises a TypeError inside the
  \<^verbatim>\<open>try\<close> when the step's \<open>x\<close> or \<open>y\<close> is not a number: that offset is skipped
  before any call is made.
\<close>

fun try_offsets :: "env \<Rightarrow> pyval \<Rightarrow> pyval \<Rightarrow> (int \<times> int) list \<Rightarrow> trace \<Rightarrow> bool \<times> trace" where
  "try_offsets E ox oy [] h = (False, [])"
| "try_offsets E ox oy ((dx, dy) # rest) h =
     (case (ox, oy) of
        (PInt x, PInt y) \<Rightarrow>
          (case click_and_check E (x + dx) (y + dy) h of
             (True, out) \<Rightarrow> (True, out)
           | (False, out) \<Rightarrow>
               (case try_offsets E ox oy rest (h @ out) of (r, out') \<Rightarrow> (r, out @ out')))
      | _ \<Rightarrow> try_offsets E ox oy rest h)"

definition recover_click_coordinates :: "env \<Rightarrow> step \<Rightarrow> trace \<Rightarrow> bool \<times> trace" where
  "recover_click_coordinates E failed_step h =
     try_offsets E (get_default failed_step ''x'' (PInt 0))
       (get_default failed_step ''y'' (PInt 0)) offsets h"

subsection \<open>Strategy 2: window focus\<close>

definition recover_window_focus :: "env \<Rightarrow> trace \<Rightarrow> bool \<times> trace" where
  "recover_window_focus E h =
     (case run_calls E
        [KeyDown ''alt'', Press (PStr ''tab''), KeyUp ''alt'', Sleep 1,
         Click (PInt 960) (PInt 1060), Sleep 1,
         Press (PStr ''win''), Sleep 0.5, Press (PStr ''escape''), Sleep 0.5] h of
        (None, out) \<Rightarrow> (True, out)
      | (Some msg, out) \<Rightarrow> (False, out))"

subsection \<open>Strategy 3: wait and retry\<close>

definition retry_primitive :: "step \<Rightarrow> event list" where
  "retry_primitive failed_step =
     (if has_action failed_step ''click_desktop_coordinates''
        then [Click (get failed_step ''x'') (get failed_step ''y'')]
      else if has_action failed_step ''type_text'' then [Typewrite (get failed_step ''text'')]
      else if has_action failed_step ''press_key'' then [Press (get failed_step ''key'')]
      else [])"

fun wait_and_retry :: "env \<Rightarrow> step \<Rightarrow> real list \<Rightarrow> trace \<Rightarrow> bool \<times> trace" where
  "wait_and_retry E failed_step [] h = (False, [])"
| "wait_and_retry E failed_step (wait_time # rest) h =
     (case run_calls E (Sleep wait_time # retry_primitive failed_step) h of
        (None, out) \<Rightarrow> (True, out)
      | (Some msg, out) \<Rightarrow>
          (case wait_and_retry E failed_step rest (h @ out) of (r, out') \<Rightarrow> (r, out @ out')))"

definition recover_wait_and_retry :: "env \<Rightarrow> step \<Rightarrow> trace \<Rightarrow> bool \<times> trace" where
  "recover_wait_and_retry E failed_step h = wait_and_retry E failed_step [2, 5, 10] h"

subsection \<open>Strategy 4: alternative selectors\<close>

text \<open>
  The list of selectors is built before the loop, outside any \<^verbatim>\<open>try\<close>: a target that
  is not a string raises there. The loop body returns False in its first round, after
  one second of sleep.
\<close>

definition recover_alternative_selectors :: "step \<Rightarrow> (string + bool) \<times> trace" where
  "recover_alternative_selectors failed_step =
     (case get_default failed_step ''target'' (PStr []) of
        PStr target \<Rightarrow> (Inr False, [Sleep 1])
      | _ \<Rightarrow> (Inl ''AttributeError: object has no attribute replace'', []))"

subsection \<open>Strategy 5: suggestions of the language model\<close>

text \<open>
  \<^verbatim>\<open>_execute_recovery_action\<close>: the arguments of the call are read from the
  suggestion's parameters; \<^verbatim>\<open>time.sleep\<close> raises on a negative number or on a value that
  is not a number. Any exception gives False.
\<close>

definition recovery_calls :: "suggestion \<Rightarrow> event list option" where
  "recovery_calls s =
     (let params = parameters s in
      if sug_action s = PStr ''click_desktop_coordinates''
        then Some [Click (get params ''x'') (get params ''y'')]
      else if sug_action s = PStr ''type_text'' then Some [Typewrite (get params ''text'')]
      else if sug_action s = PStr ''press_key'' then Some [Press (get params ''key'')]
      else if sug_action s = PStr ''wait_seconds'' then
        (case get_default params ''seconds'' (PInt 1) of
           PInt n \<Rightarrow> if 0 \<le> n then Some [Sleep (real_of_int n)] else None
         | _ \<Rightarrow> None)
      else Some [])"

definition execute_recovery_action :: "env \<Rightarrow> suggestion \<Rightarrow> trace \<Rightarrow> bool \<times> trace" where
  "execute_recovery_action E s h =
     (case recovery_calls s of
        None \<Rightarrow> (False, [])
      | Some calls \<Rightarrow>
          (case run_calls E (calls @ [Sleep 1]) h of
             (None, out) \<Rightarrow> (True, out)
           | (Some msg, out) \<Rightarrow> (False, out)))"

text \<open>
  The loop over the suggestions, in the order of the list that \<^verbatim>\<open>json.loads\<close>
  returned. A suggestion above the threshold that has no \<open>approach\<close> raises a KeyError
  in the log line, outside \<^verbatim>\<open>_execute_recovery_action\<close>: the strategy then ends with
  False.
\<close>

fun try_suggestions :: "env \<Rightarrow> suggestion list \<Rightarrow> trace \<Rightarrow> bool \<times> trace" where
  "try_suggestions E [] h = (False, [])"
| "try_suggestions E (s # rest) h =
     (if (case confidence s of None \<Rightarrow> 0 | Some c \<Rightarrow> c) > 0.6 then
        (case approach s of
           None \<Rightarrow> (False, [])
         | Some a \<Rightarrow>
             (case execute_recovery_action E s (h @ [TrySuggestion s]) of
                (True, out) \<Rightarrow> (True, TrySuggestion s # out)
              | (False, out) \<Rightarrow>
                  (case try_suggestions E rest (h @ TrySuggestion s # out) of
                     (r, out') \<Rightarrow> (r, TrySuggestion s # out @ out'))))
      else try_suggestions E rest h)"

definition ai_powered_recovery :: "env \<Rightarrow> trace \<Rightarrow> bool \<times> trace" where
  "ai_powered_recovery E h =
     (if \<not> api_key E then (False, [])
      else
        (case raises E h AskModel of
           Some msg \<Rightarrow> (False, [AskModel])
         | None \<Rightarrow>
             (case model_reply E h of
                None \<Rightarrow> (False, [AskModel])
              | Some suggestions \<Rightarrow>
                  (case try_suggestions E suggestions (h @ [AskModel]) of
                     (r, out) \<Rightarrow> (r, AskModel # out)))))"

subsection \<open>The chain\<close>

text \<open>
  \<^verbatim>\<open>handle_failed_step\<close>. The screenshot and its save are outside any \<^verbatim>\<open>try\<close>, so
  an exception there leaves the function (\<open>Inl\<close>). The screen analysis catches its own
  exceptions. The first four strategies are one \<^verbatim>\<open>if/elif\<close> chain; the fifth runs
  when none of them reported success.
\<close>

definition gated_strategy :: "env \<Rightarrow> step \<Rightarrow> string \<Rightarrow> trace \<Rightarrow> (string + bool) \<times> trace" where
  "gated_strategy E failed_step error_message h =
     (if has_action failed_step ''click_desktop_coordinates'' then
        (case recover_click_coordinates E failed_step h of (r, out) \<Rightarrow> (Inr r, out))
      else if contains (lower error_message) ''focus'' \<or> contains (lower error_message) ''window'' then
        (case recover_window_focus E h of (r, out) \<Rightarrow> (Inr r, out))
      else if contains (lower error_message) ''timeout''
              \<or> contains (lower error_message) ''not found'' then
        (case recover_wait_and_retry E failed_step h of (r, out) \<Rightarrow> (Inr r, out))
      else if has_action failed_step ''click_element'' then
        recover_alternative_selectors failed_step
      else (Inr False, []))"

definition handle_failed_step ::
  "env \<Rightarrow> step \<Rightarrow> string \<Rightarrow> nat \<Rightarrow> trace \<Rightarrow> (string + bool) \<times> trace" where
  "handle_failed_step E failed_step error_message attempt h =
     (let called = [Recover failed_step error_message attempt] in
      case run_calls E [Screenshot, SaveScreenshot] (h @ called) of
        (Some msg, out) \<Rightarrow> (Inl msg, called @ out)
      | (None, out0) \<Rightarrow>
          (let out1 = called @ out0 @ [AnalyzeScreen] in
           case gated_strategy E failed_step error_message (h @ out1) of
             (Inl msg, out2) \<Rightarrow> (Inl msg, out1 @ out2)
           | (Inr True, out2) \<Rightarrow> (Inr True, out1 @ out2)
           | (Inr False, out2) \<Rightarrow>
               (case ai_powered_recovery E (h @ out1 @ out2) of
                  (r, out3) \<Rightarrow> (Inr r, out1 @ out2 @ out3))))"

section \<open>Executor (assistant\_bot.py)\<close>

datatype outcome = Returns bool | Raises string

definition web_actions :: "string list" where
  "web_actions = [''navigate_url'', ''search_google'', ''click_first_result'']"

definition desktop_actions :: "string list" where
  "desktop_actions =
     [''open_application'', ''type_text'', ''press_key'', ''click_desktop_coordinates'',
      ''take_screenshot'', ''wait_seconds'']"

definition recorder_actions :: "string list" where
  "recorder_actions =
     [''start_workflow_recording'', ''stop_workflow_recording'', ''replay_workflow'']"

definition collaborator_actions :: "string list" where
  "collaborator_actions =
     [''analyze_screen'', ''extract_text_from_screen'', ''find_visual_element'',
      ''scrape_website'', ''chat_with_ai'']"

text \<open>
  \<^verbatim>\<open>_execute_action\<close>. The web and desktop handlers wrap their whole body in
  \<^verbatim>\<open>try/except\<close> and answer False on any exception, so they never raise;
  \<^verbatim>\<open>click_desktop_coordinates\<close> answers what its own screen comparison found. The
  recorder methods catch their exceptions too. The remaining collaborators answer a
  success flag or raise. Any other action is unknown and answers False without a call.
\<close>

definition execute_action :: "env \<Rightarrow> step \<Rightarrow> trace \<Rightarrow> outcome \<times> trace" where
  "execute_action E step h =
     (if action_in step web_actions then
        (Returns (raises E h (Handler step) = None), [Handler step])
      else if action_in step desktop_actions then
        (if has_action step ''click_desktop_coordinates''
         then (Returns (handler_result E h step), [Handler step])
         else (Returns (raises E h (Handler step) = None), [Handler step]))
      else if action_in step recorder_actions then
        (Returns (handler_result E h step), [Handler step])
      else if action_in step collaborator_actions then
        (case raises E h (Handler step) of
           Some msg \<Rightarrow> (Raises msg, [Handler step])
         | None \<Rightarrow> (Returns (handler_result E h step), [Handler step]))
      else (Returns False, []))"

definition max_retries :: "step \<Rightarrow> nat" where
  "max_retries step = (if action_in step [''click_element'', ''type_text''] then 2 else 1)"

text \<open>
  The loop \<^verbatim>\<open>for attempt in range(max_retries)\<close> of \<^verbatim>\<open>execute_step\<close>, over the
  attempt numbers still to run. An exception of \<^verbatim>\<open>handle_failed_step\<close> is raised
  inside the \<^verbatim>\<open>except\<close> clause and leaves \<^verbatim>\<open>execute_step\<close>.
\<close>

fun attempts :: "env \<Rightarrow> step \<Rightarrow> nat \<Rightarrow> nat list \<Rightarrow> trace \<Rightarrow> (string + bool) \<times> trace" where
  "attempts E step retries [] h = (Inr False, [])"
| "attempts E step retries (attempt # rest) h =
     (let backoff = (if attempt > 0 then [Sleep 2] else []) @ [ExecuteAction step] in
      case execute_action E step (h @ backoff) of
        (Returns True, out) \<Rightarrow> (Inr True, backoff @ out @ [Sleep 0.5])
      | (Returns False, out) \<Rightarrow>
          (case attempts E step retries rest (h @ backoff @ out) of
             (r, out') \<Rightarrow> (r, backoff @ out @ out'))
      | (Raises error_message, out) \<Rightarrow>
          (if attempt = retries - 1 then
             (case handle_failed_step E step error_message attempt (h @ backoff @ out) of
                (Inl msg, out2) \<Rightarrow> (Inl msg, backoff @ out @ out2)
              | (Inr True, out2) \<Rightarrow> (Inr True, backoff @ out @ out2)
              | (Inr False, out2) \<Rightarrow>
                  (case attempts E step retries rest (h @ backoff @ out @ out2) of
                     (r, out') \<Rightarrow> (r, backoff @ out @ out2 @ out')))
           else
             (case attempts E step retries rest (h @ backoff @ out) of
                (r, out') \<Rightarrow> (r, backoff @ out @ out'))))"

definition execute_step :: "env \<Rightarrow> step \<Rightarrow> trace \<Rightarrow> (string + bool) \<times> trace" where
  "execute_step E step h =
     (case raises E h (SaveStep step) of
        Some msg \<Rightarrow> (Inl msg, [SaveStep step])
      | None \<Rightarrow>
          (case attempts E step (max_retries step) [0..<max_retries step] (h @ [SaveStep step]) of
             (r, out) \<Rightarrow> (r, SaveStep step # out)))"

section \<open>Plan execution (api.py, execute\_automation)\<close>

text \<open>
  One entry of the log is the text \<^verbatim>\<open>Step i: action - Success\<close>, \<^verbatim>\<open>... - Failed\<close>
  or \<^verbatim>\<open>... - Error: msg\<close>, kept as its parts. The loop numbers the steps from 1 and
  leaves at the first step that fails or raises. Of the JSON response the fields
  \<open>steps_executed\<close>, \<open>steps_total\<close> and \<open>log\<close> are kept.
\<close>

datatype log_entry = StepResult nat pyval bool | StepError nat pyval string

record response =
  steps_executed :: nat
  steps_total :: nat
  exec_log :: "log_entry list"

fun run_steps :: "env \<Rightarrow> nat \<Rightarrow> step list \<Rightarrow> trace \<Rightarrow> log_entry list \<times> trace" where
  "run_steps E i [] h = ([], [])"
| "run_steps E i (step # rest) h =
     (let action = get_default step ''action'' (PStr ''unknown'') in
      case execute_step E step h of
        (Inr True, out) \<Rightarrow>
          (case run_steps E (Suc i) rest (h @ out) of
             (lg, out') \<Rightarrow> (StepResult i action True # lg, out @ out'))
      | (Inr False, out) \<Rightarrow> ([StepResult i action False], out)
      | (Inl msg, out) \<Rightarrow> ([StepError i action msg], out))"

definition execute_plan :: "env \<Rightarrow> step list \<Rightarrow> trace \<Rightarrow> response \<times> trace" where
  "execute_plan E steps h =
     (case run_steps E 1 steps h of
        (lg, out) \<Rightarrow>
          (\<lparr>steps_executed = length lg, steps_total = length steps, exec_log = lg\<rparr>, out))"

section \<open>Special-key names of the Replayer\<close>

text \<open>
  \<^verbatim>\<open>replay_workflow\<close>, the table \<^verbatim>\<open>key_mapping\<close> and the lookup
  \<^verbatim>\<open>key_mapping.get(key.lower(), key)\<close> applied to a recorded key name of more than one
  character.
\<close>

definition key_mapping :: "(string \<times> string) list" where
  "key_mapping =
     [(''ctrl_l'', ''ctrl''), (''ctrl_r'', ''ctrl''),
      (''alt_l'', ''alt''), (''alt_r'', ''alt''),
      (''shift_l'', ''shift''), (''shift_r'', ''shift''),
      (''cmd'', ''cmd''), (''esc'', ''escape''),
      (''enter'', ''enter''), (''tab'', ''tab''),
      (''space'', ''space''), (''backspace'', ''backspace''),
      (''delete'', ''delete'')]"

definition mapped_key :: "string \<Rightarrow> string" where
  "mapped_key key = (case map_of key_mapping (lower key) of None \<Rightarrow> key | Some v \<Rightarrow> v)"

section \<open>Replayer (workflow\_recorder.py, replay\_workflow)\<close>

definition timestamp_of :: "recorded_action \<Rightarrow> real" where
  "timestamp_of a =
     (case a of MouseClick x y b t \<Rightarrow> t | MouseScroll x y dx dy t \<Rightarrow> t
      | KeyPress k t \<Rightarrow> t | OtherAction t \<Rightarrow> t)"

definition replay_calls :: "recorded_action \<Rightarrow> event list" where
  "replay_calls a =
     (case a of
        MouseClick x y b t \<Rightarrow> [Click (PInt x) (PInt y)]
      | KeyPress key t \<Rightarrow>
          (if length key = 1 then [WriteText key] else [Press (PStr (mapped_key key))])
      | MouseScroll x y dx dy t \<Rightarrow> [Scroll dy x y]
      | OtherAction t \<Rightarrow> [])"

text \<open>
  The loop over the events. A speed of zero raises a ZeroDivisionError inside the
  \<^verbatim>\<open>try\<close> of every round; an exception skips the event and leaves
  \<open>last_timestamp\<close> as it was.
\<close>

fun replay_actions :: "env \<Rightarrow> real \<Rightarrow> real \<Rightarrow> recorded_action list \<Rightarrow> trace \<Rightarrow> trace" where
  "replay_actions E speed last_timestamp [] h = []"
| "replay_actions E speed last_timestamp (a # rest) h =
     (if speed = 0 then replay_actions E speed last_timestamp rest h
      else
        (let current_timestamp = timestamp_of a;
             delay = (current_timestamp - last_timestamp) / speed;
             pause = (if delay > 0 then [Sleep (min delay 2)] else [])
         in case run_calls E (pause @ replay_calls a) h of
              (None, out) \<Rightarrow> out @ replay_actions E speed current_timestamp rest (h @ out)
            | (Some msg, out) \<Rightarrow> out @ replay_actions E speed last_timestamp rest (h @ out)))"

text \<open>
  \<^verbatim>\<open>replay_workflow\<close>. The whole body is inside \<^verbatim>\<open>try/except Exception\<close>, so
  every exception becomes the result False: a file name that is not a string, a file
  that cannot be read or parsed, a failing import.
\<close>

definition replay_workflow :: "env \<Rightarrow> pyval \<Rightarrow> real \<Rightarrow> trace \<Rightarrow> bool \<times> trace" where
  "replay_workflow E workflow_file speed_multiplier h =
     (case workflow_file of
        PStr name \<Rightarrow>
          (let path = (if prefix ''workflows/'' name then name else ''workflows/'' @ name) in
           case files E h path of
             None \<Rightarrow> (False, [])
           | Some Unreadable \<Rightarrow> (False, [])
           | Some (Workflow workflow) \<Rightarrow>
               (if actions workflow = [] then (True, [])
                else
                  (case raises E h ImportPyautogui of
                     Some msg \<Rightarrow> (False, [ImportPyautogui])
                   | None \<Rightarrow>
                       (True, [ImportPyautogui, Sleep 2]
                          @ replay_actions E speed_multiplier 0 (actions workflow)
                              (h @ [ImportPyautogui, Sleep 2])))))
      | _ \<Rightarrow> (False, []))"

section \<open>Recorder (workflow\_recorder.py)\<close>

record recorder =
  recording :: bool
  workflow_name :: "string option"
  start_time :: "real option"
  recorded_actions :: "recorded_action list"
  mouse_listener :: "nat option"
  keyboard_listener :: "nat option"
  stop_event :: bool

definition new_recorder :: recorder where
  \<comment> \<open>\<^verbatim>\<open>__init__\<close>\<close>
  "new_recorder =
     \<lparr>recording = False, workflow_name = None, start_time = None, recorded_actions = [],
      mouse_listener = None, keyboard_listener = None, stop_event = False\<rparr>"

definition reset_state :: "recorder \<Rightarrow> recorder" where
  "reset_state r =
     r\<lparr>workflow_name := None, start_time := None, recorded_actions := [],
       recording := False, stop_event := True\<rparr>"

text \<open>
  The file name: the characters of the name that are alphanumeric (ASCII letters and
  digits) or one of space, hyphen and underscore; trailing white space stripped; spaces
  replaced by underscores.
\<close>

definition is_alnum :: "char \<Rightarrow> bool" where
  "is_alnum c =
     (let n = (of_char c :: nat) in
      (48 \<le> n \<and> n \<le> 57) \<or> (65 \<le> n \<and> n \<le> 90) \<or> (97 \<le> n \<and> n \<le> 122))"

definition is_space :: "char \<Rightarrow> bool" where
  "is_space c = (let n = (of_char c :: nat) in n = 32 \<or> (9 \<le> n \<and> n \<le> 13))"

definition rstrip :: "string \<Rightarrow> string" where
  "rstrip s = rev (dropWhile is_space (rev s))"

definition safe_name :: "string \<Rightarrow> string" where
  "safe_name name =
     map (\<lambda>c. if c = CHR '' '' then CHR ''_'' else c)
       (rstrip (filter (\<lambda>c. is_alnum c \<or> c = CHR '' '' \<or> c = CHR ''-'' \<or> c = CHR ''_'') name))"

text \<open>
  \<^verbatim>\<open>_save_workflow\<close>: every exception gives None and leaves the state as it is; a
  successful write resets the state.
\<close>

definition save_workflow :: "env \<Rightarrow> recorder \<Rightarrow> trace \<Rightarrow> string option \<times> recorder \<times> trace" where
  "save_workflow E r h =
     (case raises E h MakeDirs of
        Some msg \<Rightarrow> (None, r, [MakeDirs])
      | None \<Rightarrow>
          (case workflow_name r of
             None \<Rightarrow> (None, r, [MakeDirs])
           | Some name \<Rightarrow>
               (let h1 = h @ [MakeDirs];
                    filename = ''workflows/'' @ safe_name name @ ''_'' @ strftime E h1 @ ''.json'';
                    workflow =
                      \<lparr>wf_name = Some name, created_at = isoformat E h1,
                       duration = (case start_time r of
                                     None \<Rightarrow> 0
                                   | Some t \<Rightarrow> if t = 0 then 0 else clock E h1 - t),
                       actions_count = length (recorded_actions r),
                       actions = recorded_actions r\<rparr>
                in case raises E h1 (WriteFile filename workflow) of
                     Some msg \<Rightarrow> (None, r, [MakeDirs, WriteFile filename workflow])
                   | None \<Rightarrow>
                       (Some filename, reset_state r, [MakeDirs, WriteFile filename workflow]))))"

definition stop_calls :: "env \<Rightarrow> nat option \<Rightarrow> trace \<Rightarrow> event list" where
  \<comment> \<open>\<^verbatim>\<open>if listener and listener.running: listener.stop(); listener.join(timeout=2)\<close>\<close>
  "stop_calls E listener h =
     (case listener of
        None \<Rightarrow> []
      | Some l \<Rightarrow> if listener_running E h l then [StopListener l, JoinListener l] else [])"

definition stop_recording :: "env \<Rightarrow> recorder \<Rightarrow> trace \<Rightarrow> string option \<times> recorder \<times> trace" where
  "stop_recording E r h =
     (if \<not> recording r then (None, r, [])
      else
        (let r1 = r\<lparr>recording := False, stop_event := True\<rparr>;
             cleanup = r1\<lparr>recording := False, mouse_listener := None, keyboard_listener := None\<rparr>
         in case run_calls E (stop_calls E (mouse_listener r1) h) h of
              (Some msg, out1) \<Rightarrow> (None, cleanup, out1)
            | (None, out1) \<Rightarrow>
                (case run_calls E (stop_calls E (keyboard_listener r1) (h @ out1)) (h @ out1) of
                   (Some msg, out2) \<Rightarrow> (None, cleanup, out1 @ out2)
                 | (None, out2) \<Rightarrow>
                     (case save_workflow E (r1\<lparr>mouse_listener := None, keyboard_listener := None\<rparr>)
                             (h @ out1 @ out2) of
                        (filename, r2, out3) \<Rightarrow> (filename, r2, out1 @ out2 @ out3)))))"

text \<open>
  \<^verbatim>\<open>start_recording\<close>: a recording in progress is stopped through
  \<^verbatim>\<open>stop_recording\<close>, followed by one second of sleep; then the state is set and the
  two listeners are created and started inside one \<^verbatim>\<open>try\<close>.
\<close>

definition start_recording :: "env \<Rightarrow> recorder \<Rightarrow> string \<Rightarrow> trace \<Rightarrow> bool \<times> recorder \<times> trace" where
  "start_recording E r name h =
     (let (r0, out0) =
            (if recording r
             then (case stop_recording E r h of (filename, r', out) \<Rightarrow> (r', out @ [Sleep 1]))
             else (r, []));
          h0 = h @ out0;
          r1 = r0\<lparr>recording := True, workflow_name := Some name,
                  start_time := Some (clock E h0), recorded_actions := [], stop_event := False\<rparr>
      in case raises E h0 (NewListener Mouse) of
           Some msg \<Rightarrow> (False, r1\<lparr>recording := False\<rparr>, out0 @ [NewListener Mouse])
         | None \<Rightarrow>
             (let m = length h0;
                  r2 = r1\<lparr>mouse_listener := Some m\<rparr>;
                  created = [NewListener Mouse, NewListener Keyboard]
              in case raises E (h0 @ [NewListener Mouse]) (NewListener Keyboard) of
                   Some msg \<Rightarrow> (False, r2\<lparr>recording := False\<rparr>, out0 @ created)
                 | None \<Rightarrow>
                     (let k = Suc m;
                          r3 = r2\<lparr>keyboard_listener := Some k\<rparr>
                      in case run_calls E [StartListener m, StartListener k] (h0 @ created) of
                           (Some msg, out) \<Rightarrow> (False, r3\<lparr>recording := False\<rparr>, out0 @ created @ out)
                         | (None, out) \<Rightarrow> (True, r3, out0 @ created @ out))))"

section \<open>Observations on traces and example environments\<close>


definition is_recover :: "event \<Rightarrow> bool" where
  "is_recover e = (case e of Recover s m a \<Rightarrow> True | _ \<Rightarrow> False)"


text \<open>The suggestions handed to \<^verbatim>\<open>_execute_recovery_action\<close>, in the order of the trace.\<close>

fun tried :: "trace \<Rightarrow> suggestion list" where
  "tried [] = []"
| "tried (e # es) = (case e of TrySuggestion s \<Rightarrow> s # tried es | _ \<Rightarrow> tried es)"

definition above_threshold :: "suggestion \<Rightarrow> bool" where
  "above_threshold s = ((case confidence s of None \<Rightarrow> 0 | Some c \<Rightarrow> c) > 0.6)"



definition succeeded :: "log_entry \<Rightarrow> bool" where
  "succeeded e = (case e of StepResult i a ok \<Rightarrow> ok | StepError i a msg \<Rightarrow> False)"

text \<open>
  A desktop on which no call raises, no click changes the screen, no API key is set and
  no workflow file exists; its clock shows 100 seconds plus one per event.
\<close>

definition quiet_desktop :: env where
  "quiet_desktop =
     \<lparr>raises = (\<lambda>h e. None), handler_result = (\<lambda>h s. False), screen = (\<lambda>h. []),
      model_reply = (\<lambda>h. None), api_key = False, listener_running = (\<lambda>h l. True),
      clock = (\<lambda>h. 100 + real (length h)), strftime = (\<lambda>h. ''20250101_120000''),
      isoformat = (\<lambda>h. ''2025-01-01T12:00:00''), files = (\<lambda>h p. None)\<rparr>"

text \<open>
  The same desktop, except that every handler or collaborator behind
  \<^verbatim>\<open>_execute_action\<close> raises an exception with the text \<open>Element not found\<close>.
\<close>

definition failing_desktop :: env where
  "failing_desktop =
     \<lparr>raises = (\<lambda>h e. case e of Handler s \<Rightarrow> Some ''Element not found'' | _ \<Rightarrow> None),
      handler_result = (\<lambda>h s. False), screen = (\<lambda>h. []),
      model_reply = (\<lambda>h. None), api_key = False, listener_running = (\<lambda>h l. True),
      clock = (\<lambda>h. 100 + real (length h)), strftime = (\<lambda>h. ''20250101_120000''),
      isoformat = (\<lambda>h. ''2025-01-01T12:00:00''), files = (\<lambda>h p. None)\<rparr>"

text \<open>Three plan steps: a wait, a click at desktop coordinates and a text entry.\<close>

definition step_wait :: step where
  "step_wait = [(''action'', PStr ''wait_seconds''), (''seconds'', PInt 1)]"

definition step_click :: step where
  "step_click =
     [(''action'', PStr ''click_desktop_coordinates''), (''x'', PInt 100), (''y'', PInt 200)]"

definition step_type :: step where
  "step_type = [(''action'', PStr ''type_text''), (''text'', PStr ''hi'')]"

text \<open>
  The quiet desktop with one stored workflow, \<open>workflows/empty.json\<close>, that holds no
  events; and a step for a screen analysis.
\<close>

definition empty_workflow :: workflow_data where
  "empty_workflow =
     \<lparr>wf_name = Some ''empty'', created_at = ''2025-01-01T12:00:00'', duration = 3,
      actions_count = 0, actions = []\<rparr>"

definition archive_desktop :: env where
  "archive_desktop =
     quiet_desktop\<lparr>files :=
       (\<lambda>h p. if p = ''workflows/empty.json'' then Some (Workflow empty_workflow) else None)\<rparr>"

definition step_analyze :: step where
  "step_analyze = [(''action'', PStr ''analyze_screen'')]"


definition armed_demo :: recorder where
  "armed_demo =
     \<lparr>recording = True, workflow_name = Some ''demo'', start_time = Some 100,
      recorded_actions = [], mouse_listener = Some 0, keyboard_listener = Some 1,
      stop_event = False\<rparr>"

definition demo_history :: trace where
  "demo_history = [NewListener Mouse, NewListener Keyboard, StartListener 0, StartListener 1]"

text \<open>
  Three suggestions of the language model, with confidence 0.6, 0.7 and 0.9, and the
  quiet desktop with an API key on which the model returns them in this order.
\<close>

definition weak_hint :: suggestion where
  "weak_hint =
     \<lparr>approach = Some ''press escape'', sug_action = PStr ''press_key'',
      parameters = [(''key'', PStr ''escape'')], confidence = Some 0.6\<rparr>"

definition press_a :: suggestion where
  "press_a =
     \<lparr>approach = Some ''press a'', sug_action = PStr ''press_key'',
      parameters = [(''key'', PStr ''a'')], confidence = Some 0.7\<rparr>"

definition press_b :: suggestion where
  "press_b =
     \<lparr>approach = Some ''press b'', sug_action = PStr ''press_key'',
      parameters = [(''key'', PStr ''b'')], confidence = Some 0.9\<rparr>"

definition advisor_desktop :: env where
  "advisor_desktop =
     quiet_desktop\<lparr>api_key := True, model_reply := (\<lambda>h. Some [weak_hint, press_a, press_b])\<rparr>"






text \<open>The coordinates of the clicks in a trace, in order.\<close>

fun clicks :: "trace \<Rightarrow> (pyval \<times> pyval) list" where
  "clicks [] = []"
| "clicks (e # es) = (case e of Click a b \<Rightarrow> (a, b) # clicks es | _ \<Rightarrow> clicks es)"

section \<open>Properties\<close>

lemma mapped_key_values:
  "mapped_key ''ctrl'' = ''ctrl''" "mapped_key ''alt'' = ''alt''"
  "mapped_key ''shift'' = ''shift''" "mapped_key ''cmd'' = ''cmd''"
  "mapped_key ''escape'' = ''escape''" "mapped_key ''enter'' = ''enter''"
  "mapped_key ''tab'' = ''tab''" "mapped_key ''space'' = ''space''"
  "mapped_key ''backspace'' = ''backspace''" "mapped_key ''delete'' = ''delete''"
  by (simp_all add: key_mapping_def mapped_key_def lower_def lower_char_def)

lemma mapped_key_canonical:
  "v \<in> snd ` set key_mapping \<Longrightarrow> mapped_key v = v"
  unfolding key_mapping_def using mapped_key_values by auto

text \<open>
  C9. The special-key name mapping of the Replayer is idempotent: for every key name
  \<open>k\<close>, mapping the mapped name again changes nothing; and the canonical name
  \<open>enter\<close> is mapped to itself.
\<close>

theorem mapped_key_idempotent:
  "mapped_key (mapped_key k) = mapped_key k \<and> mapped_key ''enter'' = ''enter''"
proof
  show "mapped_key (mapped_key k) = mapped_key k"
  proof (cases "map_of key_mapping (lower k)")
    case None
    then show ?thesis by (simp add: mapped_key_def)
  next
    case (Some v)
    then have "(lower k, v) \<in> set key_mapping" by (rule map_of_SomeD)
    then have "v \<in> snd ` set key_mapping" by force
    then have "mapped_key v = v" by (rule mapped_key_canonical)
    moreover have "mapped_key k = v" using Some by (simp add: mapped_key_def)
    ultimately show ?thesis by simp
  qed
next
  show "mapped_key ''enter'' = ''enter''"
    by (rule mapped_key_canonical) (simp add: key_mapping_def)
qed

subsection \<open>Plan execution halts at the first failing step\<close>

lemma upt_1: "[0..<1] = [0]"
  by (simp add: upt_rec)

lemma upt_2: "[0..<2] = [0, 1]"
  by (simp add: upt_rec)

lemma step_wait_action: "get step_wait ''action'' = PStr ''wait_seconds''"
  by (simp add: step_wait_def get_def)

lemma step_click_action: "get step_click ''action'' = PStr ''click_desktop_coordinates''"
  by (simp add: step_click_def get_def)

lemma step_type_action: "get step_type ''action'' = PStr ''type_text''"
  by (simp add: step_type_def get_def)

lemma quiet_wait:
  "execute_step quiet_desktop step_wait h =
     (Inr True, [SaveStep step_wait, ExecuteAction step_wait, Handler step_wait, Sleep 0.5])"
  by (simp add: execute_step_def quiet_desktop_def max_retries_def action_in_def has_action_def
      step_wait_action upt_1 execute_action_def web_actions_def desktop_actions_def)

lemma quiet_click:
  "execute_step quiet_desktop step_click h =
     (Inr False, [SaveStep step_click, ExecuteAction step_click, Handler step_click])"
  by (simp add: execute_step_def quiet_desktop_def max_retries_def action_in_def has_action_def
      step_click_action upt_1 execute_action_def web_actions_def desktop_actions_def)

lemma quiet_type:
  "execute_step quiet_desktop step_type h =
     (Inr True, [SaveStep step_type, ExecuteAction step_type, Handler step_type, Sleep 0.5])"
  by (simp add: execute_step_def quiet_desktop_def max_retries_def action_in_def has_action_def
      step_type_action upt_2 execute_action_def web_actions_def desktop_actions_def)

lemma run_steps_halts:
  "list_all succeeded (fst (run_steps E n pre h)) \<Longrightarrow>
   fst (execute_step E b (h @ snd (run_steps E n pre h))) = Inr False \<Longrightarrow>
   run_steps E n (pre @ b # post) h =
     (fst (run_steps E n pre h)
        @ [StepResult (n + length pre) (get_default b ''action'' (PStr ''unknown'')) False],
      snd (run_steps E n pre h) @ snd (execute_step E b (h @ snd (run_steps E n pre h))))"
proof (induction pre arbitrary: n h)
  case Nil
  obtain r out where e: "execute_step E b h = (r, out)" by (cases "execute_step E b h")
  with Nil show ?case by (simp add: Let_def)
next
  case (Cons a pre)
  obtain r out where e: "execute_step E a h = (r, out)" by (cases "execute_step E a h")
  show ?case
  proof (cases r)
    case (Inl m)
    with e Cons.prems show ?thesis by (simp add: Let_def succeeded_def)
  next
    case (Inr ok)
    show ?thesis
    proof (cases ok)
      case False
      with e Inr Cons.prems show ?thesis by (simp add: Let_def succeeded_def)
    next
      case True
      obtain lg out' where r: "run_steps E (Suc n) pre (h @ out) = (lg, out')"
        by (cases "run_steps E (Suc n) pre (h @ out)")
      from Cons.prems e Inr True r
      have p1: "list_all succeeded (fst (run_steps E (Suc n) pre (h @ out)))"
        and p2: "fst (execute_step E b ((h @ out) @ snd (run_steps E (Suc n) pre (h @ out))))
                  = Inr False"
        by (simp_all add: Let_def)
      from Cons.IH[OF p1 p2] e Inr True r show ?thesis by (simp add: Let_def)
    qed
  qed
qed

lemma all_succeeded_length:
  "list_all succeeded (fst (run_steps E n pre h)) \<Longrightarrow>
   length (fst (run_steps E n pre h)) = length pre"
proof (induction pre arbitrary: n h)
  case Nil
  show ?case by simp
next
  case (Cons a pre)
  obtain r out where e: "execute_step E a h = (r, out)" by (cases "execute_step E a h")
  obtain lg out' where r: "run_steps E (Suc n) pre (h @ out) = (lg, out')"
    by (cases "run_steps E (Suc n) pre (h @ out)")
  have ok: "r = Inr True"
  proof (cases r)
    case (Inl m)
    with Cons.prems e show ?thesis by (simp add: Let_def succeeded_def)
  next
    case (Inr b)
    with Cons.prems e show ?thesis by (cases b) (simp_all add: Let_def succeeded_def)
  qed
  from Cons.prems e r ok have p: "list_all succeeded lg" by (simp add: Let_def)
  from Cons.IH[of "Suc n" "h @ out"] p r have "length lg = length pre" by simp
  with e ok r show ?case by (simp add: Let_def)
qed

text \<open>
  C1. For every plan \<open>steps\<close> and index \<open>i\<close>: if every step before \<open>i\<close> succeeded
  (the log of running the first \<open>i\<close> steps holds successes only) and
  \<^verbatim>\<open>execute_step\<close> returns False for the step at index \<open>i\<close>, then the response
  reports \<open>i + 1\<close> executed steps out of \<open>length steps\<close>, its log has exactly
  \<open>i + 1\<close> entries, the last one being the failure of step \<open>i + 1\<close>, and the calls
  made are those of the first \<open>i + 1\<close> steps alone: no later step is attempted.
\<close>

theorem plan_halts_at_first_failure:
  assumes "i < length steps"
    and "list_all succeeded (fst (run_steps E 1 (take i steps) h))"
    and "fst (execute_step E (steps ! i) (h @ snd (run_steps E 1 (take i steps) h))) = Inr False"
  shows "steps_executed (fst (execute_plan E steps h)) = i + 1
       \<and> steps_total (fst (execute_plan E steps h)) = length steps
       \<and> length (exec_log (fst (execute_plan E steps h))) = i + 1
       \<and> exec_log (fst (execute_plan E steps h)) =
           fst (run_steps E 1 (take i steps) h)
             @ [StepResult (i + 1) (get_default (steps ! i) ''action'' (PStr ''unknown'')) False]
       \<and> snd (execute_plan E steps h) = snd (execute_plan E (take (Suc i) steps) h)"
proof -
  let ?pre = "take i steps"
  have len: "length (fst (run_steps E 1 ?pre h)) = i"
    using all_succeeded_length[OF assms(2)] assms(1) by simp
  have split: "steps = ?pre @ steps ! i # drop (Suc i) steps"
    using assms(1) by (rule id_take_nth_drop)
  have short: "take (Suc i) steps = ?pre @ steps ! i # []"
    using assms(1) by (simp add: take_Suc_conv_app_nth)
  have full: "run_steps E 1 (?pre @ steps ! i # drop (Suc i) steps) h =
      (fst (run_steps E 1 ?pre h)
         @ [StepResult (1 + length ?pre) (get_default (steps ! i) ''action'' (PStr ''unknown'')) False],
       snd (run_steps E 1 ?pre h)
         @ snd (execute_step E (steps ! i) (h @ snd (run_steps E 1 ?pre h))))"
    using assms(2,3) by (rule run_steps_halts)
  have part: "run_steps E 1 (?pre @ steps ! i # []) h =
      (fst (run_steps E 1 ?pre h)
         @ [StepResult (1 + length ?pre) (get_default (steps ! i) ''action'' (PStr ''unknown'')) False],
       snd (run_steps E 1 ?pre h)
         @ snd (execute_step E (steps ! i) (h @ snd (run_steps E 1 ?pre h))))"
    using assms(2,3) by (rule run_steps_halts)
  have lp: "length ?pre = i" using assms(1) by simp
  have r1: "run_steps E 1 steps h =
      (fst (run_steps E 1 ?pre h)
         @ [StepResult (i + 1) (get_default (steps ! i) ''action'' (PStr ''unknown'')) False],
       snd (run_steps E 1 ?pre h)
         @ snd (execute_step E (steps ! i) (h @ snd (run_steps E 1 ?pre h))))"
    using full split lp by simp
  have r2: "snd (run_steps E 1 (take (Suc i) steps) h) =
       snd (run_steps E 1 ?pre h)
         @ snd (execute_step E (steps ! i) (h @ snd (run_steps E 1 ?pre h)))"
    using part short by simp
  show ?thesis
    unfolding execute_plan_def using r1 r2 len
    by (simp add: case_prod_beta)
qed

theorem plan_halts_at_first_failure_witness:
  "steps_executed (fst (execute_plan quiet_desktop [step_wait, step_click, step_type] [])) = 2
   \<and> steps_total (fst (execute_plan quiet_desktop [step_wait, step_click, step_type] [])) = 3
   \<and> exec_log (fst (execute_plan quiet_desktop [step_wait, step_click, step_type] [])) =
       [StepResult 1 (PStr ''wait_seconds'') True,
        StepResult 2 (PStr ''click_desktop_coordinates'') False]
   \<and> snd (execute_plan quiet_desktop [step_wait, step_click, step_type] []) =
       [SaveStep step_wait, ExecuteAction step_wait, Handler step_wait, Sleep 0.5,
        SaveStep step_click, ExecuteAction step_click, Handler step_click]"
proof -
  have a: "(1::nat) < length [step_wait, step_click, step_type]" by simp
  have b: "list_all succeeded
             (fst (run_steps quiet_desktop 1 (take 1 [step_wait, step_click, step_type]) []))"
    by (simp add: quiet_wait succeeded_def)
  have c: "fst (execute_step quiet_desktop ([step_wait, step_click, step_type] ! 1)
             ([] @ snd (run_steps quiet_desktop 1 (take 1 [step_wait, step_click, step_type]) [])))
           = Inr False"
    by (simp add: quiet_wait quiet_click)
  have w: "get_default step_wait ''action'' (PStr ''unknown'') = PStr ''wait_seconds''"
    by (simp add: get_default_def step_wait_def)
  have k: "get_default step_click ''action'' (PStr ''unknown'') = PStr ''click_desktop_coordinates''"
    by (simp add: get_default_def step_click_def)
  have t: "take (Suc 1) [step_wait, step_click, step_type] = [step_wait, step_click]"
    by simp
  show ?thesis
    using plan_halts_at_first_failure[OF a b c]
    by (simp add: t quiet_wait quiet_click w k execute_plan_def)
qed

subsection \<open>Bounded retries with a fixed backoff\<close>
























subsection \<open>Recovery is reached only through an exception\<close>

text \<open>
  \<^verbatim>\<open>handle_failed_step\<close> is called only from the \<^verbatim>\<open>except\<close> clause: for every step
  whose action is not one of the collaborator kinds, \<^verbatim>\<open>_execute_action\<close> cannot raise
  and no run of \<^verbatim>\<open>execute_step\<close> reaches the recovery chain, whatever the
  environment does.
\<close>

lemma execute_action_returns:
  "\<not> action_in step collaborator_actions \<Longrightarrow> \<exists>ok. fst (execute_action E step h) = Returns ok"
  by (auto simp: execute_action_def)

lemma execute_action_no_recover: "filter is_recover (snd (execute_action E step h)) = []"
  by (simp add: execute_action_def is_recover_def split: option.splits)

lemma attempts_without_recovery:
  assumes "\<not> action_in step collaborator_actions"
  shows "filter is_recover (snd (attempts E step r as h)) = []"
proof (induction as arbitrary: h)
  case Nil
  show ?case by simp
next
  case (Cons a as)
  let ?b = "(if 0 < a then [Sleep 2] else []) @ [ExecuteAction step]"
  obtain res out where e: "execute_action E step (h @ ?b) = (res, out)"
    by (cases "execute_action E step (h @ ?b)")
  from execute_action_returns[OF assms, of E "h @ ?b"] e obtain ok where
    r: "res = Returns ok" by auto
  have no: "filter is_recover out = []"
    using execute_action_no_recover[of E step "h @ ?b"] e by simp
  have m: "\<not> is_recover (Sleep 2)" "\<not> is_recover (ExecuteAction step)"
    "\<not> is_recover (Sleep 0.5)"
    by (simp_all add: is_recover_def)
  show ?case
  proof (cases ok)
    case True
    with e r no m show ?thesis by (simp add: Let_def)
  next
    case False
    with e r no m Cons.IH[of "h @ ?b @ out"] show ?thesis
      by (simp add: Let_def case_prod_beta)
  qed
qed

lemma recovery_only_for_collaborators:
  "\<not> action_in step collaborator_actions \<Longrightarrow>
   filter is_recover (snd (execute_step E step h)) = []"
proof -
  assume a: "\<not> action_in step collaborator_actions"
  have m: "\<not> is_recover (SaveStep step)" by (simp add: is_recover_def)
  show ?thesis
    using attempts_without_recovery[OF a, of E] m
    by (simp add: execute_step_def case_prod_beta split: option.splits)
qed

text \<open>
  C3 (the code at the failing input). On a desktop where a click changes nothing, the
  handler of a \<open>click_desktop_coordinates\<close> step returns False. \<^verbatim>\<open>execute_step\<close>
  makes its single, hence final, attempt, the attempt fails, and the step is reported as
  failed without any call of \<^verbatim>\<open>handle_failed_step\<close>: the trace holds no
  \<open>Recover\<close> event.
\<close>

theorem final_failure_without_recovery:
  "max_retries step_click = 1
   \<and> execute_step quiet_desktop step_click [] =
       (Inr False, [SaveStep step_click, ExecuteAction step_click, Handler step_click])
   \<and> filter is_recover (snd (execute_step quiet_desktop step_click [])) = []"
  by (simp add: quiet_click is_recover_def max_retries_def action_in_def step_click_action)

subsection \<open>Replay of a missing or empty workflow\<close>

text \<open>
  C6. \<^verbatim>\<open>replay_workflow\<close> returns False, with no call made and no exception, when no
  file exists under the name (prefixed with \<open>workflows/\<close> unless it already is); and
  when the file holds a workflow whose list of events is empty it returns True at once:
  no settle pause and no input event. The model returns a Boolean on every path, as the
  body of the function is one \<^verbatim>\<open>try/except Exception\<close>.
\<close>

theorem replay_missing_or_empty:
  "(files E h (if prefix ''workflows/'' name then name else ''workflows/'' @ name) = None
      \<longrightarrow> replay_workflow E (PStr name) speed h = (False, []))
   \<and> (\<forall>w. files E h (if prefix ''workflows/'' name then name else ''workflows/'' @ name)
              = Some (Workflow w) \<and> actions w = []
      \<longrightarrow> replay_workflow E (PStr name) speed h = (True, []))"
  by (simp add: replay_workflow_def Let_def)

theorem replay_missing_or_empty_witness:
  "replay_workflow archive_desktop (PStr ''missing.json'') 1 [] = (False, [])
   \<and> replay_workflow archive_desktop (PStr ''empty.json'') 1 [] = (True, [])"
  using replay_missing_or_empty[of archive_desktop "[]" "''missing.json''" 1]
    replay_missing_or_empty[of archive_desktop "[]" "''empty.json''" 1]
  by (simp add: archive_desktop_def empty_workflow_def)

subsection \<open>Wait and retry without a primitive to retry\<close>

lemma wait_and_retry_no_primitive:
  assumes "\<not> has_action step ''click_desktop_coordinates''"
    and "\<not> has_action step ''type_text''" and "\<not> has_action step ''press_key''"
  shows "recover_wait_and_retry E step h = (True, [Sleep 2])"
  using assms by (simp add: recover_wait_and_retry_def retry_primitive_def fails_def)

text \<open>
  C10. For a failed step whose action is none of \<open>click_desktop_coordinates\<close>,
  \<open>type_text\<close> and \<open>press_key\<close>, the wait-and-retry strategy sleeps 2 seconds,
  re-executes nothing and reports success. When the error text mentions \<open>timeout\<close> or
  \<open>not found\<close> (and neither \<open>focus\<close> nor \<open>window\<close>, which would select the
  focus strategy before it), the chain selects this strategy, so that
  \<^verbatim>\<open>handle_failed_step\<close> reports the step as recovered after the screenshot, the
  analysis and that one sleep.
\<close>

theorem wait_and_retry_vacuous_success:
  assumes "\<not> has_action step ''click_desktop_coordinates''"
    and "\<not> has_action step ''type_text''" and "\<not> has_action step ''press_key''"
  shows "recover_wait_and_retry E step h = (True, [Sleep 2])
     \<and> ((contains (lower msg) ''timeout'' \<or> contains (lower msg) ''not found'')
          \<and> \<not> contains (lower msg) ''focus'' \<and> \<not> contains (lower msg) ''window''
        \<longrightarrow> gated_strategy E step msg h = (Inr True, [Sleep 2]))
     \<and> ((contains (lower msg) ''timeout'' \<or> contains (lower msg) ''not found'')
          \<and> \<not> contains (lower msg) ''focus'' \<and> \<not> contains (lower msg) ''window''
          \<and> raises E (h @ [Recover step msg a]) Screenshot = None
          \<and> raises E (h @ [Recover step msg a, Screenshot]) SaveScreenshot = None
        \<longrightarrow> handle_failed_step E step msg a h =
              (Inr True, [Recover step msg a, Screenshot, SaveScreenshot, AnalyzeScreen, Sleep 2]))"
proof -
  have w: "\<And>h. recover_wait_and_retry E step h = (True, [Sleep 2])"
    using assms by (rule wait_and_retry_no_primitive)
  have g: "\<And>h. (contains (lower msg) ''timeout'' \<or> contains (lower msg) ''not found'')
          \<and> \<not> contains (lower msg) ''focus'' \<and> \<not> contains (lower msg) ''window''
        \<Longrightarrow> gated_strategy E step msg h = (Inr True, [Sleep 2])"
    using assms(1) w by (auto simp: gated_strategy_def)
  show ?thesis
  proof (intro conjI impI)
    show "recover_wait_and_retry E step h = (True, [Sleep 2])" by (rule w)
  next
    assume "(contains (lower msg) ''timeout'' \<or> contains (lower msg) ''not found'')
          \<and> \<not> contains (lower msg) ''focus'' \<and> \<not> contains (lower msg) ''window''"
    then show "gated_strategy E step msg h = (Inr True, [Sleep 2])" by (rule g)
  next
    assume a: "(contains (lower msg) ''timeout'' \<or> contains (lower msg) ''not found'')
          \<and> \<not> contains (lower msg) ''focus'' \<and> \<not> contains (lower msg) ''window''
          \<and> raises E (h @ [Recover step msg a]) Screenshot = None
          \<and> raises E (h @ [Recover step msg a, Screenshot]) SaveScreenshot = None"
    then have "gated_strategy E step msg
                 (h @ [Recover step msg a] @ [Screenshot, SaveScreenshot] @ [AnalyzeScreen])
               = (Inr True, [Sleep 2])"
      using g by blast
    with a show "handle_failed_step E step msg a h =
              (Inr True, [Recover step msg a, Screenshot, SaveScreenshot, AnalyzeScreen, Sleep 2])"
      by (simp add: handle_failed_step_def fails_def)
  qed
qed

lemma not_found_gate:
  "contains (lower ''Element not found'') ''not found''"
  "\<not> contains (lower ''Element not found'') ''focus''"
  "\<not> contains (lower ''Element not found'') ''window''"
  by (simp_all add: lower_def lower_char_def)

theorem wait_and_retry_vacuous_success_witness:
  "recover_wait_and_retry failing_desktop step_analyze [] = (True, [Sleep 2])
   \<and> handle_failed_step failing_desktop step_analyze ''Element not found'' 0 [] =
       (Inr True,
        [Recover step_analyze ''Element not found'' 0, Screenshot, SaveScreenshot,
         AnalyzeScreen, Sleep 2])"
proof -
  have a: "\<not> has_action step_analyze ''click_desktop_coordinates''"
    "\<not> has_action step_analyze ''type_text''" "\<not> has_action step_analyze ''press_key''"
    by (simp_all add: has_action_def get_def step_analyze_def)
  show ?thesis
    using wait_and_retry_vacuous_success[OF a, of failing_desktop "[]" "''Element not found''" 0]
      not_found_gate
    by (simp add: failing_desktop_def)
qed

subsection \<open>Recorder: one session at a time\<close>







lemma safe_name_demo: "safe_name ''demo'' = ''demo''"
  by (simp add: safe_name_def rstrip_def is_alnum_def is_space_def)

lemma quiet_start:
  "start_recording quiet_desktop new_recorder ''demo'' [] = (True, armed_demo, demo_history)"
  by (simp add: start_recording_def new_recorder_def quiet_desktop_def armed_demo_def
      demo_history_def fails_def Let_def)

lemma quiet_stop:
  "stop_recording quiet_desktop armed_demo demo_history =
     (Some ''workflows/demo_20250101_120000.json'',
      \<lparr>recording = False, workflow_name = None, start_time = None, recorded_actions = [],
       mouse_listener = None, keyboard_listener = None, stop_event = True\<rparr>,
      [StopListener 0, JoinListener 0, StopListener 1, JoinListener 1, MakeDirs,
       WriteFile ''workflows/demo_20250101_120000.json''
         \<lparr>wf_name = Some ''demo'', created_at = ''2025-01-01T12:00:00'', duration = 9,
          actions_count = 0, actions = []\<rparr>])"
  by (simp add: stop_recording_def stop_calls_def save_workflow_def reset_state_def
      quiet_desktop_def armed_demo_def demo_history_def fails_def Let_def safe_name_demo)




subsection \<open>Recorder: what a stop persists\<close>

lemma run_calls_quiet:
  "\<forall>h e. raises E h e = None \<Longrightarrow> run_calls E es h = (None, es)"
  by (induction es arbitrary: h) (simp_all add: fails_def split: event.splits)

lemma set_rstrip: "set (rstrip s) \<subseteq> set s"
  using set_dropWhileD[of _ is_space "rev s"] by (auto simp: rstrip_def)

lemma safe_name_chars:
  "c \<in> set (safe_name name) \<Longrightarrow> is_alnum c \<or> c = CHR ''-'' \<or> c = CHR ''_''"
  using set_rstrip[of "filter (\<lambda>c. is_alnum c \<or> c = CHR '' '' \<or> c = CHR ''-'' \<or> c = CHR ''_'') name"]
  by (auto simp: safe_name_def split: if_splits)

lemma stop_recording_saves:
  assumes "recording r" and "workflow_name r = Some name"
    and quiet: "\<forall>h e. raises E h e = None"
  shows "stop_recording E r h =
     (let stops = stop_calls E (mouse_listener r) h
                    @ stop_calls E (keyboard_listener r) (h @ stop_calls E (mouse_listener r) h);
          h1 = h @ stops @ [MakeDirs];
          filename = ''workflows/'' @ safe_name name @ ''_'' @ strftime E h1 @ ''.json'';
          workflow =
            \<lparr>wf_name = Some name, created_at = isoformat E h1,
             duration = (case start_time r of
                           None \<Rightarrow> 0 | Some t \<Rightarrow> if t = 0 then 0 else clock E h1 - t),
             actions_count = length (recorded_actions r),
             actions = recorded_actions r\<rparr>
      in (Some filename,
          \<lparr>recording = False, workflow_name = None, start_time = None, recorded_actions = [],
           mouse_listener = None, keyboard_listener = None, stop_event = True\<rparr>,
          stops @ [MakeDirs, WriteFile filename workflow]))"
  using assms(1,2) quiet
  by (cases r) (simp add: stop_recording_def save_workflow_def reset_state_def Let_def
      run_calls_quiet[OF quiet] split: option.splits)

text \<open>
  C7 (the code at the failing input). A recording \<open>demo\<close> is started on the quiet
  desktop and stopped before any input event arrives, so the buffer is empty. The stop
  writes a workflow with \<open>actions_count = 0\<close> and no events to
  \<open>workflows/demo_20250101_120000.json\<close> and returns that file name, not None.
\<close>

theorem stop_with_empty_buffer_returns_file:
  "start_recording quiet_desktop new_recorder ''demo'' [] = (True, armed_demo, demo_history)
   \<and> recorded_actions armed_demo = []
   \<and> stop_recording quiet_desktop armed_demo demo_history =
     (Some ''workflows/demo_20250101_120000.json'',
      \<lparr>recording = False, workflow_name = None, start_time = None, recorded_actions = [],
       mouse_listener = None, keyboard_listener = None, stop_event = True\<rparr>,
      [StopListener 0, JoinListener 0, StopListener 1, JoinListener 1, MakeDirs,
       WriteFile ''workflows/demo_20250101_120000.json''
         \<lparr>wf_name = Some ''demo'', created_at = ''2025-01-01T12:00:00'', duration = 9,
          actions_count = 0, actions = []\<rparr>])"
  by (simp add: quiet_start quiet_stop) (simp add: armed_demo_def)

subsection \<open>Suggestions of the language model are tried in the order returned\<close>

lemma tried_append: "tried (xs @ ys) = tried xs @ tried ys"
  by (induction xs) (auto split: event.splits)

lemma tried_run_calls: "tried es = [] \<Longrightarrow> tried (snd (run_calls E es h)) = []"
proof (induction es arbitrary: h)
  case Nil
  show ?case by simp
next
  case (Cons e es)
  then have e: "tried [e] = []" and es: "tried es = []"
    by (auto split: event.splits)
  show ?case
  proof (cases "fails E h e")
    case None
    obtain r out where r: "run_calls E es (h @ [e]) = (r, out)"
      by (cases "run_calls E es (h @ [e])")
    with Cons.IH[OF es, of "h @ [e]"] None e show ?thesis by (auto split: event.splits)
  next
    case (Some m)
    with e show ?thesis by simp
  qed
qed

lemma tried_recovery_calls: "recovery_calls s = Some cs \<Longrightarrow> tried cs = []"
  by (auto simp: recovery_calls_def Let_def split: if_splits pyval.splits)

lemma tried_execute: "tried (snd (execute_recovery_action E s h)) = []"
proof (cases "recovery_calls s")
  case None
  then show ?thesis by (simp add: execute_recovery_action_def)
next
  case (Some cs)
  have "tried (snd (run_calls E (cs @ [Sleep 1]) h)) = []"
    by (rule tried_run_calls) (simp add: tried_append tried_recovery_calls[OF Some])
  with Some show ?thesis
    by (cases "run_calls E (cs @ [Sleep 1]) h"; cases "fst (run_calls E (cs @ [Sleep 1]) h)")
       (simp_all add: execute_recovery_action_def del: run_calls.simps)
qed

lemma try_suggestions_skip:
  "\<not> above_threshold s \<Longrightarrow> try_suggestions E (s # rest) h = try_suggestions E rest h"
  by (simp add: above_threshold_def)

lemma try_suggestions_filter:
  "try_suggestions E ss h = try_suggestions E (filter above_threshold ss) h"
proof (induction ss arbitrary: h)
  case Nil
  show ?case by simp
next
  case (Cons s ss)
  show ?case
  proof (cases "above_threshold s")
    case False
    then show ?thesis using Cons.IH[of h] by (simp add: above_threshold_def)
  next
    case True
    obtain ok out where c: "execute_recovery_action E s (h @ [TrySuggestion s]) = (ok, out)"
      by (cases "execute_recovery_action E s (h @ [TrySuggestion s])")
    from True c Cons.IH[of "h @ TrySuggestion s # out"] show ?thesis
      by (cases ok) (simp_all add: above_threshold_def split: option.splits)
  qed
qed

lemma tried_prefix:
  "\<exists>n. tried (snd (try_suggestions E ss h)) = take n (filter above_threshold ss)"
proof (induction ss arbitrary: h)
  case Nil
  show ?case by simp
next
  case (Cons s ss)
  show ?case
  proof (cases "above_threshold s")
    case False
    then show ?thesis using Cons.IH[of h] by (simp add: above_threshold_def)
  next
    case True
    show ?thesis
    proof (cases "approach s")
      case None
      with True have "tried (snd (try_suggestions E (s # ss) h)) = take 0 (filter above_threshold (s # ss))"
        by (simp add: above_threshold_def)
      then show ?thesis by blast
    next
      case (Some a)
      obtain ok out where c: "execute_recovery_action E s (h @ [TrySuggestion s]) = (ok, out)"
        by (cases "execute_recovery_action E s (h @ [TrySuggestion s])")
      have t: "tried out = []" using tried_execute[of E s "h @ [TrySuggestion s]"] c by simp
      show ?thesis
      proof (cases ok)
        case ok: True
        with True Some c t have
          "tried (snd (try_suggestions E (s # ss) h)) = take 1 (filter above_threshold (s # ss))"
          by (simp add: above_threshold_def)
        then show ?thesis by blast
      next
        case nok: False
        from Cons.IH[of "h @ TrySuggestion s # out"] obtain n where
          n: "tried (snd (try_suggestions E ss (h @ TrySuggestion s # out))) =
                take n (filter above_threshold ss)" by blast
        with True Some c t nok have
          "tried (snd (try_suggestions E (s # ss) h)) = take (Suc n) (filter above_threshold (s # ss))"
          by (simp add: above_threshold_def tried_append case_prod_beta)
        then show ?thesis by blast
      qed
    qed
  qed
qed

lemma first_eligible_wins:
  assumes "\<forall>s\<in>set pre. \<not> above_threshold s" and "above_threshold s" and "approach s \<noteq> None"
    and "fst (execute_recovery_action E s (h @ [TrySuggestion s]))"
  shows "try_suggestions E (pre @ s # post) h =
           (True, TrySuggestion s # snd (execute_recovery_action E s (h @ [TrySuggestion s])))"
  using assms
proof (induction pre)
  case Nil
  then show ?case
    by (cases "execute_recovery_action E s (h @ [TrySuggestion s])")
       (auto simp: above_threshold_def)
next
  case (Cons p pre)
  then show ?case by (simp add: above_threshold_def)
qed

lemma advisor_run:
  "ai_powered_recovery advisor_desktop [] =
     (True, [AskModel, TrySuggestion press_a, Press (PStr ''a''), Sleep 1])"
  by (simp add: ai_powered_recovery_def advisor_desktop_def quiet_desktop_def
      execute_recovery_action_def recovery_calls_def fails_def get_def Let_def
      weak_hint_def press_a_def press_b_def)

text \<open>
  C5, the claim as stated fails: the model returns suggestions with confidence 0.6, 0.7
  and 0.9 in this order. The one with 0.7 is executed first, it does not throw, and the
  strategy ends with success: the suggestion with the highest confidence is never
  tried, so the order of attempts is not by descending confidence.
\<close>

theorem suggestions_not_sorted_counterexample:
  "confidence press_a = Some 0.7 \<and> confidence press_b = Some 0.9
   \<and> model_reply advisor_desktop [] = Some [weak_hint, press_a, press_b]
   \<and> ai_powered_recovery advisor_desktop [] =
       (True, [AskModel, TrySuggestion press_a, Press (PStr ''a''), Sleep 1])
   \<and> tried (snd (ai_powered_recovery advisor_desktop [])) = [press_a]"
  by (simp add: advisor_run) (simp add: press_a_def press_b_def advisor_desktop_def)

text \<open>
  C5, as amended. Without an API key the strategy reports failure and makes no call.
  Otherwise the suggestions are tried in the order in which the model returned them:
  a suggestion whose confidence is at most 0.6 (or missing) is skipped without any
  effect, the suggestions handed to \<^verbatim>\<open>_execute_recovery_action\<close> are an initial
  segment of those above 0.6 in list order, the first of them that executes without
  throwing ends the strategy with success whatever follows it in the list, and one
  that throws is followed by the rest of the list.
\<close>

theorem suggestions_tried_in_list_order:
  "(\<not> api_key E \<longrightarrow> ai_powered_recovery E h = (False, []))
   \<and> try_suggestions E ss h = try_suggestions E (filter above_threshold ss) h
   \<and> (\<exists>n. tried (snd (try_suggestions E ss h)) = take n (filter above_threshold ss))
   \<and> ((\<forall>s\<in>set pre. \<not> above_threshold s) \<and> above_threshold s \<and> approach s \<noteq> None
        \<and> fst (execute_recovery_action E s (h @ [TrySuggestion s]))
      \<longrightarrow> try_suggestions E (pre @ s # post) h =
            (True, TrySuggestion s # snd (execute_recovery_action E s (h @ [TrySuggestion s]))))
   \<and> (above_threshold s \<and> approach s \<noteq> None
        \<and> \<not> fst (execute_recovery_action E s (h @ [TrySuggestion s]))
      \<longrightarrow> try_suggestions E (s # post) h =
            (fst (try_suggestions E post
                   (h @ TrySuggestion s # snd (execute_recovery_action E s (h @ [TrySuggestion s])))),
             TrySuggestion s # snd (execute_recovery_action E s (h @ [TrySuggestion s]))
               @ snd (try_suggestions E post
                   (h @ TrySuggestion s # snd (execute_recovery_action E s (h @ [TrySuggestion s]))))))"
proof (intro conjI impI)
  assume "\<not> api_key E"
  then show "ai_powered_recovery E h = (False, [])" by (simp add: ai_powered_recovery_def)
next
  show "try_suggestions E ss h = try_suggestions E (filter above_threshold ss) h"
    by (rule try_suggestions_filter)
next
  show "\<exists>n. tried (snd (try_suggestions E ss h)) = take n (filter above_threshold ss)"
    by (rule tried_prefix)
next
  assume "(\<forall>s\<in>set pre. \<not> above_threshold s) \<and> above_threshold s \<and> approach s \<noteq> None
        \<and> fst (execute_recovery_action E s (h @ [TrySuggestion s]))"
  then show "try_suggestions E (pre @ s # post) h =
            (True, TrySuggestion s # snd (execute_recovery_action E s (h @ [TrySuggestion s])))"
    by (intro first_eligible_wins) simp_all
next
  assume "above_threshold s \<and> approach s \<noteq> None
        \<and> \<not> fst (execute_recovery_action E s (h @ [TrySuggestion s]))"
  then show "try_suggestions E (s # post) h =
            (fst (try_suggestions E post
                   (h @ TrySuggestion s # snd (execute_recovery_action E s (h @ [TrySuggestion s])))),
             TrySuggestion s # snd (execute_recovery_action E s (h @ [TrySuggestion s]))
               @ snd (try_suggestions E post
                   (h @ TrySuggestion s # snd (execute_recovery_action E s (h @ [TrySuggestion s])))))"
    by (cases "execute_recovery_action E s (h @ [TrySuggestion s])")
       (auto simp: above_threshold_def case_prod_beta)
qed

theorem suggestions_tried_in_list_order_witness:
  "ai_powered_recovery quiet_desktop [] = (False, [])
   \<and> try_suggestions advisor_desktop [weak_hint, press_a, press_b] [AskModel] =
       (True, [TrySuggestion press_a, Press (PStr ''a''), Sleep 1])"
proof -
  have ex: "execute_recovery_action advisor_desktop press_a ([AskModel] @ [TrySuggestion press_a]) =
          (True, [Press (PStr ''a''), Sleep 1])"
    by (simp add: execute_recovery_action_def recovery_calls_def fails_def get_def Let_def
        press_a_def advisor_desktop_def quiet_desktop_def)
  have w: "\<not> above_threshold weak_hint" "above_threshold press_a" "approach press_a \<noteq> None"
    by (simp_all add: above_threshold_def weak_hint_def press_a_def)
  show ?thesis
    using suggestions_tried_in_list_order[of quiet_desktop "[]" "[]" "[weak_hint]" press_a "[press_b]"]
      suggestions_tried_in_list_order[of advisor_desktop "[AskModel]" "[]" "[weak_hint]" press_a "[press_b]"]
      w ex
    by (simp add: quiet_desktop_def)
qed

subsection \<open>Coordinate recovery: fixed order, first change wins\<close>













lemma clicks_append: "clicks (xs @ ys) = clicks xs @ clicks ys"
  by (induction xs) (auto split: event.splits)

lemma clicks_run_calls: "subseq (clicks (snd (run_calls E es h))) (clicks es)"
proof (induction es arbitrary: h)
  case Nil
  show ?case by simp
next
  case (Cons e es)
  show ?case
  proof (cases "fails E h e")
    case (Some msg)
    then show ?thesis by (cases e) simp_all
  next
    case None
    obtain r out where r: "run_calls E es (h @ [e]) = (r, out)"
      by (cases "run_calls E es (h @ [e])")
    with Cons.IH[of "h @ [e]"] have "subseq (clicks out) (clicks es)" by simp
    with None r show ?thesis by (cases e) simp_all
  qed
qed

lemma clicks_click_and_check:
  "subseq (clicks (snd (click_and_check E nx ny h))) [(PInt nx, PInt ny)]"
proof -
  let ?cs = "[Screenshot, Click (PInt nx) (PInt ny), Sleep 0.5, Screenshot]"
  obtain r out where c: "run_calls E ?cs h = (r, out)" by (cases "run_calls E ?cs h")
  have "subseq (clicks (snd (run_calls E ?cs h))) (clicks ?cs)" by (rule clicks_run_calls)
  with c have "subseq (clicks out) [(PInt nx, PInt ny)]" by (simp del: run_calls.simps)
  with c show ?thesis
    by (cases r) (simp_all add: click_and_check_def del: run_calls.simps)
qed

lemma clicks_in_fixed_order:
  "subseq (clicks (snd (try_offsets E (PInt x) (PInt y) os h)))
     (map (\<lambda>(dx, dy). (PInt (x + dx), PInt (y + dy))) os)"
proof (induction os arbitrary: h)
  case Nil
  show ?case by simp
next
  case (Cons d os)
  obtain dx dy where d: "d = (dx, dy)" by (cases d)
  obtain ok out where c: "click_and_check E (x + dx) (y + dy) h = (ok, out)"
    by (cases "click_and_check E (x + dx) (y + dy) h")
  have 1: "subseq (clicks out) [(PInt (x + dx), PInt (y + dy))]"
    using clicks_click_and_check[of E "x + dx" "y + dy" h] c by simp
  obtain r out' where t: "try_offsets E (PInt x) (PInt y) os (h @ out) = (r, out')"
    by (cases "try_offsets E (PInt x) (PInt y) os (h @ out)")
  have 2: "subseq (clicks out') (map (\<lambda>(dx, dy). (PInt (x + dx), PInt (y + dy))) os)"
    using Cons.IH[of "h @ out"] t by simp
  have 3: "subseq (clicks out @ clicks out')
             ([(PInt (x + dx), PInt (y + dy))] @ map (\<lambda>(dx, dy). (PInt (x + dx), PInt (y + dy))) os)"
    using 1 2 by (rule list_emb_append_mono)
  have 4: "subseq (clicks out)
             ([(PInt (x + dx), PInt (y + dy))] @ map (\<lambda>(dx, dy). (PInt (x + dx), PInt (y + dy))) os)"
    using 1 by (rule list_emb_append2[where zs = "[]", simplified] subseq_order.trans) simp
  show ?case using d c t 3 4 by (cases ok) (simp_all add: clicks_append)
qed







end
